theory Spec2Isabelle
  imports Complex_Main "HOL-Library.Log_Nat"
begin

section \<open>The data cleaner of \<open>scripts/dataCleaner.py\<close>\<close>

text \<open>
  The class \<open>dataCleaner\<close> is a set of methods over pandas data frames. The methods are
  embedded here as functions over an explicit model of the frame.

  Numbers. A cell of a float64 column is a finite double (\<open>Num\<close>: every finite double is a
  rational number), an infinity, or NaN, which is the null marker of pandas. A cell of an
  int64 column is \<open>I64\<close>. A cell of an object column that holds text is \<open>Str\<close>.

  Arithmetic on doubles rounds. Where the method itself computes (the percentage of
  \<open>percent_missing\<close>, the conversion of an int64 column by \<open>np.where\<close>, the distortion of
  \<open>choose_k_means\<close>) the rounding is written out with \<open>fl\<close> below. The statistics of a column (\<open>Series.mean\<close>, \<open>Series.median\<close>,
  \<open>Series.quantile\<close>) are computed inside pandas in double arithmetic, in an order the caller
  does not see: they are a parameter of the model, the record \<open>pandas\<close>.
\<close>

subsection \<open>Frames, exceptions, printed lines\<close>

datatype cell = Num rat | I64 int | PosInf | NegInf | NaN | Str string

type_synonym series = "cell list"

text \<open>A frame keeps its columns in order. The labels of a frame are taken to be distinct, as
  they are in a frame built from a table of named columns; \<open>df[c]\<close> reads the column labelled
  \<open>c\<close>.\<close>

type_synonym DataFrame = "(string \<times> series) list"

datatype exn = AttributeError | KeyError | TypeError | ValueError | ZeroDivisionError
  | LibraryError nat

text \<open>What a method hands back: a value, or an exception that leaves the method.\<close>

datatype pyval = NoneV | FrameV DataFrame | SeriesV series | PairV "rat list" "rat list"

datatype outcome = Returned pyval | Raised exn

text \<open>What \<open>print\<close> writes: a text line, an exception's message, a line with a column list,
  or the line of \<open>percent_missing\<close> with its number.\<close>

datatype out = Text string | Exc exn | TextCols string "string list" | Percent cell

subsection \<open>Doubles\<close>

text \<open>To the nearest integer, a tie to the even one (\<open>rint\<close>).\<close>

definition round_half_even :: "rat \<Rightarrow> int" where
  "round_half_even x =
     (let f = \<lfloor>x\<rfloor>; r = x - of_int f
      in if r < 1 / 2 then f else if 1 / 2 < r then f + 1 else if even f then f else f + 1)"

text \<open>The exponent of a positive number: the \<open>e\<close> with \<open>2^e \<le> x < 2^(e + 1)\<close>.\<close>

definition ilog2 :: "rat \<Rightarrow> int" where
  "ilog2 x = (if 1 \<le> x then bitlen \<lfloor>x\<rfloor> - 1 else - bitlen (\<lceil>1 / x\<rceil> - 1))"

text \<open>
  \<open>fl x\<close> is the double nearest to \<open>x\<close>, a tie to the even significand: a double has 53
  significant bits, so near \<open>x\<close> the doubles are the multiples of \<open>2^(e - 52)\<close>. The range of
  the exponent is not bounded here; the numbers below that are rounded stay far inside the
  range of a double (an int64, a percentage, a percentage times \<open>10^10\<close>, a mean distance).
\<close>

definition fl :: "rat \<Rightarrow> rat" where
  "fl x =
     (if x = 0 then 0
      else of_int (round_half_even (x / 2 powi (ilog2 \<bar>x\<bar> - 52))) * 2 powi (ilog2 \<bar>x\<bar> - 52))"

text \<open>The conversion of a cell to float64: an int64 becomes the nearest double.\<close>

fun to_float :: "cell \<Rightarrow> cell" where
  "to_float (I64 v) = Num (fl (of_int v))"
| "to_float c = c"

subsection \<open>The pandas and numpy operations the methods call\<close>

fun isnull :: "cell \<Rightarrow> bool" where
  "isnull NaN = True"
| "isnull _ = False"

fun is_str :: "cell \<Rightarrow> bool" where
  "is_str (Str _) = True"
| "is_str _ = False"

definition numeric :: "series \<Rightarrow> bool" where
  "numeric s = (\<not> list_ex is_str s)"

text \<open>\<open>df[column]\<close>: KeyError when no column has the label.\<close>

fun getitem :: "DataFrame \<Rightarrow> string \<Rightarrow> exn + series" where
  "getitem [] c = Inl KeyError"
| "getitem ((k, s) # df) c = (if k = c then Inr s else getitem df c)"

text \<open>\<open>df[column] = values\<close>: replaces the column in place, or appends a new last column.\<close>

fun setitem :: "DataFrame \<Rightarrow> string \<Rightarrow> series \<Rightarrow> DataFrame" where
  "setitem [] c v = [(c, v)]"
| "setitem ((k, s) # df) c v = (if k = c then (k, v) # df else (k, s) # setitem df c v)"

text \<open>
  The statistics of a column, computed by pandas: \<open>Series.mean()\<close>, \<open>Series.median()\<close> and
  \<open>Series.quantile(q)\<close>, each of which gives a float64 or raises, and \<open>Series.mode()\<close>, which
  gives the series of the most frequent values.
\<close>

record pandas =
  Series_mean :: "series \<Rightarrow> exn + cell"
  Series_median :: "series \<Rightarrow> exn + cell"
  Series_quantile :: "series \<Rightarrow> rat \<Rightarrow> exn + cell"
  Series_mode :: "series \<Rightarrow> exn + series"

text \<open>\<open>series > scalar\<close>, row by row, on float64 values (an int64 is converted first); a
  comparison with NaN is false, text against a number raises.\<close>

fun float_gt :: "cell \<Rightarrow> cell \<Rightarrow> bool" where
  "float_gt (Num a) (Num b) = (a > b)"
| "float_gt PosInf (Num b) = True"
| "float_gt PosInf NegInf = True"
| "float_gt (Num a) NegInf = True"
| "float_gt _ _ = False"

definition cell_gt :: "cell \<Rightarrow> cell \<Rightarrow> bool" where
  "cell_gt a b = float_gt (to_float a) (to_float b)"

definition Series_gt :: "series \<Rightarrow> cell \<Rightarrow> exn + bool list" where
  "Series_gt s q = (if \<not> numeric s then Inl TypeError else Inr (map (\<lambda>c. cell_gt c q) s))"

text \<open>\<open>np.where(cond, x, ys)\<close> with a float64 scalar \<open>x\<close>: the result is a float64 array, so
  the cells of an int64 column are converted.\<close>

definition np_where :: "bool list \<Rightarrow> cell \<Rightarrow> series \<Rightarrow> series" where
  "np_where cond x ys = map (\<lambda>(b, y). to_float (if b then x else y)) (zip cond ys)"

subsection \<open>\<open>fix_outlier\<close>\<close>

text \<open>
  The body of the \<open>try\<close> after the \<open>print\<close>: the right-hand side is evaluated on the column as
  it is before the assignment, then stored. The percentile asked for is the constant 0.95 of
  the source.
\<close>

definition clip :: "pandas \<Rightarrow> DataFrame \<Rightarrow> string \<Rightarrow> exn + DataFrame" where
  "clip lib df column =
     (case getitem df column of Inl e \<Rightarrow> Inl e | Inr s \<Rightarrow>
      (case Series_quantile lib s (19 / 20) of Inl e \<Rightarrow> Inl e | Inr q \<Rightarrow>
       (case Series_gt s q of Inl e \<Rightarrow> Inl e | Inr cond \<Rightarrow>
        (case Series_median lib s of Inl e \<Rightarrow> Inl e | Inr m \<Rightarrow>
           Inr (setitem df column (np_where cond m s))))))"

text \<open>
  The method: the frame after the call (it is changed in place), the printed lines, and the
  outcome. The \<open>return df[column]\<close> stands after the \<open>try\<close> statement, outside its guard.
\<close>

definition fix_outlier ::
  "pandas \<Rightarrow> DataFrame \<Rightarrow> string \<Rightarrow> DataFrame \<times> out list \<times> outcome" where
  "fix_outlier lib df column =
     (let line = Text (''column to be filled with median values: '' @ column);
          (df', printed) =
             (case clip lib df column of
                Inl e \<Rightarrow> (df, [line, Exc e])
              | Inr d \<Rightarrow> (d, [line]))
      in (df', printed,
          (case getitem df' column of
             Inl e \<Rightarrow> Raised e
           | Inr s \<Rightarrow> Returned (SeriesV s))))"

subsection \<open>\<open>percent_missing\<close>\<close>

text \<open>\<open>df.shape\<close>: the number of rows and the number of columns.\<close>

definition nrows :: "DataFrame \<Rightarrow> nat" where
  "nrows df = (case df of [] \<Rightarrow> 0 | (_, s) # _ \<Rightarrow> length s)"

definition ncols :: "DataFrame \<Rightarrow> nat" where
  "ncols df = length df"

definition shape :: "DataFrame \<Rightarrow> nat \<times> nat" where
  "shape df = (nrows df, ncols df)"

text \<open>\<open>df.isnull().sum()\<close>: the number of null cells of each column.\<close>

definition isnull_sum :: "DataFrame \<Rightarrow> nat list" where
  "isnull_sum df = map (\<lambda>(c, s). length (filter isnull s)) df"

text \<open>
  \<open>round(x, ndigits)\<close> on a numpy float64, as numpy does it: the product with \<open>10^ndigits\<close>
  rounded to a double, that double rounded to an integer, and the quotient by \<open>10^ndigits\<close>
  rounded to a double.
\<close>

definition np_round :: "rat \<Rightarrow> nat \<Rightarrow> rat" where
  "np_round x ndigits = fl (of_int (round_half_even (fl (x * 10 ^ ndigits))) / 10 ^ ndigits)"

text \<open>
  The method prints one line and returns nothing. Both counts are numpy integers; their
  quotient converts them to doubles and divides, and the product with 100 rounds again. A
  zero divisor gives NaN with a warning, not an exception: a frame with no cell has no
  missing cell.
\<close>

definition percent_missing :: "DataFrame \<Rightarrow> out list \<times> outcome" where
  "percent_missing df =
     (let totalCells = fst (shape df) * snd (shape df);
          missingCount = isnull_sum df;
          totalMissing = sum_list missingCount
      in ([Percent (if totalCells = 0 then NaN
                    else Num (np_round
                                (fl (fl (fl (of_nat totalMissing) / fl (of_nat totalCells)) * 100))
                                10))],
          Returned NoneV))"

text \<open>The specification's count: the null cells of the whole frame, taken over all cells at
  once.\<close>

definition null_cells :: "DataFrame \<Rightarrow> nat" where
  "null_cells df = length (filter isnull (concat (map snd df)))"

text \<open>Every column of a frame has the frame's number of rows.\<close>

definition rectangular :: "DataFrame \<Rightarrow> bool" where
  "rectangular df = list_all (\<lambda>(c, s). length s = nrows df) df"

subsection \<open>\<open>fillWithMedian\<close> and \<open>fillWithMean\<close>\<close>

text \<open>\<open>df[cols]\<close> with a list of labels: the sub-frame of these columns, KeyError when one
  is absent.\<close>

fun getitem_list :: "DataFrame \<Rightarrow> string list \<Rightarrow> exn + DataFrame" where
  "getitem_list df [] = Inr []"
| "getitem_list df (c # cs) =
     (case getitem df c of Inl e \<Rightarrow> Inl e | Inr s \<Rightarrow>
      (case getitem_list df cs of Inl e \<Rightarrow> Inl e | Inr sub \<Rightarrow> Inr ((c, s) # sub)))"

text \<open>\<open>DataFrame.median()\<close> and \<open>DataFrame.mean()\<close>: the statistic of each column, keyed by
  the column's label; the call raises when the statistic of a column does.\<close>

fun DataFrame_agg :: "(series \<Rightarrow> exn + cell) \<Rightarrow> DataFrame \<Rightarrow> exn + (string \<times> cell) list" where
  "DataFrame_agg stat [] = Inr []"
| "DataFrame_agg stat ((c, s) # sub) =
     (case stat s of Inl e \<Rightarrow> Inl e | Inr v \<Rightarrow>
      (case DataFrame_agg stat sub of Inl e \<Rightarrow> Inl e | Inr vs \<Rightarrow> Inr ((c, v) # vs)))"

text \<open>\<open>fillna\<close> with a scalar: every null cell takes the value; a NaN value fills nothing.\<close>

definition fillna_scalar :: "series \<Rightarrow> cell \<Rightarrow> series" where
  "fillna_scalar s v = (if isnull v then s else map (\<lambda>c. if isnull c then v else c) s)"

text \<open>\<open>DataFrame.fillna(value)\<close> with one value per column label: each column is filled with
  the value under its own label.\<close>

definition DataFrame_fillna :: "DataFrame \<Rightarrow> (string \<times> cell) list \<Rightarrow> DataFrame" where
  "DataFrame_fillna sub value =
     map (\<lambda>(c, s). case map_of value c of None \<Rightarrow> (c, s) | Some v \<Rightarrow> (c, fillna_scalar s v)) sub"

text \<open>\<open>df[cols] = frame\<close>: each column of the right-hand side is stored under its label. A
  label listed twice makes the right-hand side hold that column twice, and storing two
  columns under the one label of \<open>df\<close> raises ValueError.\<close>

definition setitem_list :: "DataFrame \<Rightarrow> DataFrame \<Rightarrow> DataFrame" where
  "setitem_list df new = fold (\<lambda>(c, s) d. setitem d c s) new df"

definition setitem_frame :: "DataFrame \<Rightarrow> string list \<Rightarrow> DataFrame \<Rightarrow> exn + DataFrame" where
  "setitem_frame df cols new = (if distinct cols then Inr (setitem_list df new) else Inl ValueError)"

text \<open>The statement \<open>df[cols] = df[cols].fillna(df[cols].<stat>())\<close> of both methods.\<close>

definition fill_cols :: "(series \<Rightarrow> exn + cell) \<Rightarrow> DataFrame \<Rightarrow> string list \<Rightarrow> exn + DataFrame" where
  "fill_cols stat df cols =
     (case getitem_list df cols of Inl e \<Rightarrow> Inl e | Inr sub \<Rightarrow>
      (case getitem_list df cols of Inl e \<Rightarrow> Inl e | Inr sub2 \<Rightarrow>
       (case DataFrame_agg stat sub2 of Inl e \<Rightarrow> Inl e | Inr value \<Rightarrow>
          setitem_frame df cols (DataFrame_fillna sub value))))"

definition fillWithMedian ::
  "pandas \<Rightarrow> DataFrame \<Rightarrow> string list \<Rightarrow> DataFrame \<times> out list \<times> outcome" where
  "fillWithMedian lib df cols =
     (let line = TextCols ''columns to be filled with median values: '' cols
      in case fill_cols (Series_median lib) df cols of
           Inl e \<Rightarrow> (df, [line, Exc e], Returned (FrameV df))
         | Inr d \<Rightarrow> (d, [line], Returned (FrameV d)))"

definition fillWithMean ::
  "pandas \<Rightarrow> DataFrame \<Rightarrow> string list \<Rightarrow> DataFrame \<times> out list \<times> outcome" where
  "fillWithMean lib df cols =
     (let line = TextCols ''columns to be filled with mean values: '' cols
      in case fill_cols (Series_mean lib) df cols of
           Inl e \<Rightarrow> (df, [line, Exc e], Returned (FrameV df))
         | Inr d \<Rightarrow> (d, [line], Returned (FrameV d)))"

subsection \<open>\<open>fill_na\<close>\<close>

text \<open>
  \<open>fill_na\<close> works on two frames: the one held in the attribute \<open>self.df\<close> and the one passed
  as \<open>df\<close>, which may be the same object. Frames therefore live in a store and are named by
  references. The constructor does not assign \<open>self.df\<close>; the attribute is \<open>None\<close> here until
  a caller assigns it.
\<close>

type_synonym ref = nat

type_synonym heap = "ref \<Rightarrow> DataFrame"

record dataCleaner =
  self_df :: "ref option"

text \<open>The attribute access \<open>frame.col\<close>: the column labelled \<open>col\<close>, AttributeError when the
  frame has none.\<close>

definition getattr_col :: "DataFrame \<Rightarrow> exn + series" where
  "getattr_col df = (case getitem df ''col'' of Inl e \<Rightarrow> Inl AttributeError | Inr s \<Rightarrow> Inr s)"

text \<open>The value handed to \<open>Series.fillna\<close>: a scalar, or a series matched row by row.\<close>

datatype fillvalue = Scalar cell | ByRow series

text \<open>\<open>Series.fillna(value, axis)\<close>: a series has the single axis 0, every other axis raises
  ValueError before anything is filled.\<close>

definition Series_fillna :: "series \<Rightarrow> fillvalue \<Rightarrow> int \<Rightarrow> exn + series" where
  "Series_fillna s value axis =
     (if axis \<noteq> 0 then Inl ValueError
      else Inr (case value of
                  Scalar v \<Rightarrow> fillna_scalar s v
                | ByRow vs \<Rightarrow>
                    map (\<lambda>(i, c). if isnull c \<and> i < length vs \<and> \<not> isnull (vs ! i)
                                  then vs ! i else c) (enumerate 0 s)))"

definition mean_value :: "pandas \<Rightarrow> series \<Rightarrow> exn + fillvalue" where
  "mean_value lib s = (case Series_mean lib s of Inl e \<Rightarrow> Inl e | Inr v \<Rightarrow> Inr (Scalar v))"

definition median_value :: "pandas \<Rightarrow> series \<Rightarrow> exn + fillvalue" where
  "median_value lib s = (case Series_median lib s of Inl e \<Rightarrow> Inl e | Inr v \<Rightarrow> Inr (Scalar v))"

definition mode_value :: "pandas \<Rightarrow> series \<Rightarrow> exn + fillvalue" where
  "mode_value lib s = (case Series_mode lib s of Inl e \<Rightarrow> Inl e | Inr m \<Rightarrow> Inr (ByRow m))"

text \<open>
  One round of the loop, \<open>self.df.col.fillna(value=df.col.<stat>(), axis=1, inplace=True)\<close>:
  the receiver \<open>self.df.col\<close> first, then the argument \<open>df.col.<stat>()\<close>, then the call. The
  loop variable is not used by the statement.
\<close>

definition fill_one ::
  "(series \<Rightarrow> exn + fillvalue) \<Rightarrow> dataCleaner \<Rightarrow> heap \<Rightarrow> ref \<Rightarrow> exn + heap" where
  "fill_one stat self h df =
     (case self_df self of None \<Rightarrow> Inl AttributeError | Some r \<Rightarrow>
      (case getattr_col (h r) of Inl e \<Rightarrow> Inl e | Inr target \<Rightarrow>
       (case getattr_col (h df) of Inl e \<Rightarrow> Inl e | Inr source \<Rightarrow>
        (case stat source of Inl e \<Rightarrow> Inl e | Inr v \<Rightarrow>
         (case Series_fillna target v 1 of Inl e \<Rightarrow> Inl e | Inr filled \<Rightarrow>
            Inr (h(r := setitem (h r) ''col'' filled)))))))"

fun fill_loop ::
  "(series \<Rightarrow> exn + fillvalue) \<Rightarrow> dataCleaner \<Rightarrow> heap \<Rightarrow> ref \<Rightarrow> string list \<Rightarrow> heap \<times> exn option"
where
  "fill_loop stat self h df [] = (h, None)"
| "fill_loop stat self h df (col # cols) =
     (case fill_one stat self h df of
        Inl e \<Rightarrow> (h, Some e)
      | Inr h' \<Rightarrow> fill_loop stat self h' df cols)"

text \<open>One branch of the \<open>if\<close>: the loop, then \<open>return self.df\<close>, all inside the \<open>try\<close>. The
  result is the reference returned, or \<open>None\<close> when the method falls off its end.\<close>

definition fill_branch ::
  "(series \<Rightarrow> exn + fillvalue) \<Rightarrow> dataCleaner \<Rightarrow> heap \<Rightarrow> ref \<Rightarrow> string list
     \<Rightarrow> heap \<times> out list \<times> ref option" where
  "fill_branch stat self h df cols =
     (case fill_loop stat self h df cols of
        (h', Some e) \<Rightarrow> (h', [Exc e], None)
      | (h', None) \<Rightarrow>
          (case self_df self of
             None \<Rightarrow> (h', [Exc AttributeError], None)
           | Some r \<Rightarrow> (h', [], Some r)))"

definition fill_na ::
  "pandas \<Rightarrow> dataCleaner \<Rightarrow> heap \<Rightarrow> string \<Rightarrow> ref \<Rightarrow> string list
     \<Rightarrow> heap \<times> out list \<times> ref option" where
  "fill_na lib self h type df cols =
     (if type = ''mean'' then fill_branch (mean_value lib) self h df cols
      else if type = ''median'' then fill_branch (median_value lib) self h df cols
      else if type = ''mode'' then fill_branch (mode_value lib) self h df cols
      else (h, [Text ''type must be either mean, median or mode''], None))"

subsection \<open>\<open>choose_k_means\<close>\<close>

text \<open>
  The clustering library is a parameter of the model: \<open>fit df k\<close> is
  \<open>KMeans(n_clusters=k, random_state=777).fit(df)\<close>, which either raises or gives a fitted
  model with its centres and its inertia, and \<open>cdist_min df centres\<close> is
  \<open>np.min(cdist(df, centres, 'euclidean'), axis=1)\<close>, one distance for each row.
\<close>

record KMeans =
  cluster_centers :: "rat list list"
  inertia :: rat

type_synonym fitter = "DataFrame \<Rightarrow> int \<Rightarrow> exn + KMeans"

type_synonym distances = "DataFrame \<Rightarrow> rat list list \<Rightarrow> exn + rat list"

text \<open>Python's \<open>sum\<close> over doubles: from 0, one addition after the other, each rounded.\<close>

definition py_sum :: "rat list \<Rightarrow> rat" where
  "py_sum ds = foldl (\<lambda>acc d. fl (acc + d)) 0 ds"

text \<open>The body of the loop for one \<open>k\<close>: the two numbers it appends, or the exception that
  leaves the loop before anything is appended. The distortion is the sum of the distances
  divided by the number of rows, in doubles. With no row the quotient is \<open>0 / 0\<close> on Python
  integers, which raises.\<close>

definition step :: "fitter \<Rightarrow> distances \<Rightarrow> DataFrame \<Rightarrow> int \<Rightarrow> exn + rat \<times> rat" where
  "step fit cdist_min df k =
     (case fit df k of Inl e \<Rightarrow> Inl e | Inr k_means \<Rightarrow>
      (case cdist_min df (cluster_centers k_means) of Inl e \<Rightarrow> Inl e | Inr ds \<Rightarrow>
         if fst (shape df) = 0 then Inl ZeroDivisionError
         else Inr (fl (py_sum ds / fl (of_nat (fst (shape df)))), inertia k_means)))"

fun sweep ::
  "fitter \<Rightarrow> distances \<Rightarrow> DataFrame \<Rightarrow> int list \<Rightarrow> rat list \<times> rat list
     \<Rightarrow> (rat list \<times> rat list) \<times> exn option" where
  "sweep fit cdist_min df [] acc = (acc, None)"
| "sweep fit cdist_min df (k # K) (distortions, inertias) =
     (case step fit cdist_min df k of
        Inl e \<Rightarrow> ((distortions, inertias), Some e)
      | Inr (d, i) \<Rightarrow> sweep fit cdist_min df K (distortions @ [d], inertias @ [i]))"

text \<open>The method: \<open>range(1, num)\<close> is the list \<open>[1..num - 1]\<close>; the \<open>return\<close> stands after the
  \<open>try\<close> statement and both lists are bound by its first two statements.\<close>

definition choose_k_means :: "fitter \<Rightarrow> distances \<Rightarrow> DataFrame \<Rightarrow> int \<Rightarrow> out list \<times> outcome" where
  "choose_k_means fit cdist_min df num =
     (case sweep fit cdist_min df [1..num - 1] ([], []) of
        ((distortions, inertias), None) \<Rightarrow> ([], Returned (PairV distortions inertias))
      | ((distortions, inertias), Some e) \<Rightarrow> ([Exc e], Returned (PairV distortions inertias)))"

subsection \<open>The statistics in exact arithmetic\<close>

text \<open>
  A reference for the parameter \<open>pandas\<close>: mean, median and percentile (linear interpolation
  at the virtual index \<open>(n - 1) * q\<close> of the sorted values) of the finite non-null numbers of
  a column, in exact arithmetic, with TypeError on text and NaN when there is no number. It
  serves where a concrete library is needed, on columns where it and the double computation
  lead the method the same way. Infinite cells are outside it: it leaves them out.
\<close>

fun nums :: "series \<Rightarrow> rat list" where
  "nums [] = []"
| "nums (Num v # s) = v # nums s"
| "nums (I64 v # s) = fl (of_int v) # nums s"
| "nums (_ # s) = nums s"

definition median_sorted :: "rat list \<Rightarrow> rat" where
  "median_sorted v =
     (let n = length v
      in if odd n then v ! (n div 2) else (v ! (n div 2 - 1) + v ! (n div 2)) / 2)"

definition exact_median :: "series \<Rightarrow> exn + cell" where
  "exact_median s =
     (if \<not> numeric s then Inl TypeError
      else if nums s = [] then Inr NaN
      else Inr (Num (median_sorted (sort (nums s)))))"

definition exact_mean :: "series \<Rightarrow> exn + cell" where
  "exact_mean s =
     (if \<not> numeric s then Inl TypeError
      else if nums s = [] then Inr NaN
      else Inr (Num (sum_list (nums s) / of_nat (length (nums s)))))"

definition quantile_sorted :: "rat list \<Rightarrow> rat \<Rightarrow> rat" where
  "quantile_sorted v q =
     (let h = of_nat (length v - 1) * q;
          lo = nat \<lfloor>h\<rfloor>;
          hi = min (lo + 1) (length v - 1);
          g = h - of_int \<lfloor>h\<rfloor>
      in v ! lo + g * (v ! hi - v ! lo))"

definition exact_quantile :: "series \<Rightarrow> rat \<Rightarrow> exn + cell" where
  "exact_quantile s q =
     (if \<not> numeric s then Inl TypeError
      else if nums s = [] then Inr NaN
      else Inr (Num (quantile_sorted (sort (nums s)) q)))"

definition exact_mode :: "series \<Rightarrow> exn + series" where
  "exact_mode s =
     (let v = filter (\<lambda>c. \<not> isnull c) s;
          m = fold max (map (count_list v) v) 0;
          top = remdups (filter (\<lambda>c. count_list v c = m) v)
      in Inr (if numeric s then map Num (sort (nums top)) else top))"

definition exact_pandas :: pandas where
  "exact_pandas =
     \<lparr>Series_mean = exact_mean, Series_median = exact_median,
      Series_quantile = exact_quantile, Series_mode = exact_mode\<rparr>"

section \<open>Properties\<close>

subsection \<open>Rounding to a double\<close>

lemma round_half_even_near: "\<bar>of_int (round_half_even x) - x\<bar> \<le> 1 / 2"
proof -
  have "of_int \<lfloor>x\<rfloor> \<le> x" and "x < of_int \<lfloor>x\<rfloor> + 1"
    by linarith+
  then show ?thesis
    by (auto simp: round_half_even_def Let_def)
qed


lemma ilog2_lower:
  assumes "0 < x"
  shows "2 powi (ilog2 x) \<le> x"
proof (cases "1 \<le> x")
  case True
  then have pos: "0 < \<lfloor>x\<rfloor>" by linarith
  from bitlen_bounds[OF pos] have "2 ^ nat (bitlen \<lfloor>x\<rfloor> - 1) \<le> \<lfloor>x\<rfloor>" by simp
  then have "rat_of_int (2 ^ nat (bitlen \<lfloor>x\<rfloor> - 1)) \<le> of_int \<lfloor>x\<rfloor>"
    by (rule of_int_le_iff[THEN iffD2])
  then have le: "(2::rat) ^ nat (bitlen \<lfloor>x\<rfloor> - 1) \<le> x" by (simp add: le_floor_iff)
  have "1 \<le> bitlen \<lfloor>x\<rfloor>" using pos by (simp add: bitlen_alt_def)
  then have "(2::rat) powi (bitlen \<lfloor>x\<rfloor> - 1) = 2 ^ nat (bitlen \<lfloor>x\<rfloor> - 1)"
    by (simp add: power_int_def)
  with le True show ?thesis by (simp add: ilog2_def)
next
  case False
  define n where "n = \<lceil>1 / x\<rceil> - 1"
  from False assms have "1 < 1 / x" by simp
  then have n: "0 < n" unfolding n_def by linarith
  from bitlen_bounds[OF n] have "n < 2 ^ nat (bitlen n)" by simp
  then have "\<lceil>1 / x\<rceil> \<le> 2 ^ nat (bitlen n)" by (simp add: n_def)
  then have "1 / x \<le> of_int (2 ^ nat (bitlen n))" by (simp only: ceiling_le_iff)
  then have "1 / x \<le> 2 ^ nat (bitlen n)" by simp
  then have "1 \<le> 2 ^ nat (bitlen n) * x" using assms by (simp add: field_simps)
  then have le: "1 / 2 ^ nat (bitlen n) \<le> x" by (simp add: field_simps)
  have "0 \<le> bitlen n" by (rule bitlen_nonneg)
  then have "(2::rat) powi (bitlen n) = 2 ^ nat (bitlen n)"
    by (simp add: power_int_def)
  then have "(2::rat) powi (- bitlen n) = 1 / 2 ^ nat (bitlen n)"
    by (simp only: power_int_minus_divide)
  with le False show ?thesis by (simp add: ilog2_def n_def)
qed

lemma fl_near:
  "\<bar>fl x - x\<bar> \<le> \<bar>x\<bar> / 2 ^ 53"
proof (cases "x = 0")
  case True
  then show ?thesis by (simp add: fl_def)
next
  case False
  define u :: rat where "u = 2 powi (ilog2 \<bar>x\<bar> - 52)"
  have upos: "0 < u" by (simp add: u_def)
  have "fl x - x = (of_int (round_half_even (x / u)) - x / u) * u"
    using False upos by (simp add: fl_def u_def field_simps)
  then have "\<bar>fl x - x\<bar> = \<bar>of_int (round_half_even (x / u)) - x / u\<bar> * u"
    using upos by (simp add: abs_mult)
  also have "\<dots> \<le> (1 / 2) * u"
    by (rule mult_right_mono[OF round_half_even_near]) (use upos in simp)
  finally have 1: "\<bar>fl x - x\<bar> \<le> u / 2" by simp
  have "u = 2 powi (ilog2 \<bar>x\<bar>) / 2 ^ 52"
    by (simp add: u_def power_int_diff)
  moreover have "2 powi (ilog2 \<bar>x\<bar>) \<le> \<bar>x\<bar>"
    by (rule ilog2_lower) (use False in simp)
  ultimately have "u \<le> \<bar>x\<bar> / 2 ^ 52" by (simp add: divide_right_mono)
  with 1 show ?thesis by simp
qed

lemma fl_zero: "fl 0 = 0"
  by (simp add: fl_def)







subsection \<open>Clipping outliers\<close>

lemma getitem_setitem: "getitem (setitem df c v) c = Inr v"
  by (induction df) auto

lemma getitem_setitem_other: "c' \<noteq> c \<Longrightarrow> getitem (setitem df c v) c' = getitem df c'"
  by (induction df) auto

lemma np_where_length: "length cond = length ys \<Longrightarrow> length (np_where cond x ys) = length ys"
  by (simp add: np_where_def)

lemma np_where_nth:
  "length cond = length ys \<Longrightarrow> i < length ys \<Longrightarrow>
   np_where cond x ys ! i = to_float (if cond ! i then x else ys ! i)"
  by (simp add: np_where_def)



lemma fix_outlier_failed:
  assumes "clip lib df column = Inl e"
  shows "fix_outlier lib df column =
           (df, [Text (''column to be filled with median values: '' @ column), Exc e],
            (case getitem df column of Inl e \<Rightarrow> Raised e | Inr s \<Rightarrow> Returned (SeriesV s)))"
  using assms by (simp add: fix_outlier_def)



lemma np_where_all_False:
  assumes "\<forall>i<length ys. \<not> cond ! i" and "length cond = length ys"
    and "\<forall>i<length ys. to_float (ys ! i) = ys ! i"
  shows "np_where cond x ys = ys"
  using assms by (intro nth_equalityI) (simp_all add: np_where_length np_where_nth)










text \<open>
  C2, at \<open>fix_outlier\<close> with a column the frame does not have: the lookup inside the guard
  raises KeyError, which is caught and printed; the \<open>return df[column]\<close> after the guard
  raises KeyError again, and this one leaves the method.
\<close>

theorem fix_outlier_absent_column_raises:
  "fix_outlier lib [(''A'', [Num 1, Num 2])] ''B'' =
     ([(''A'', [Num 1, Num 2])],
      [Text ''column to be filled with median values: B'', Exc KeyError],
      Raised KeyError)"
  by (simp add: fix_outlier_def clip_def)

text \<open>
  C3, at \<open>fix_outlier\<close> on a text column: the clipping raises inside the guard (in the
  percentile, or else in the comparison of text with a number), the exception is printed,
  the frame is left as it was, and the \<open>return df[column]\<close> hands back the column, not the
  frame.
\<close>

theorem fix_outlier_error_returns_series:
  "\<exists>e. fix_outlier lib [(''A'', [Str ''x'', Str ''y''])] ''A'' =
     ([(''A'', [Str ''x'', Str ''y''])],
      [Text ''column to be filled with median values: A'', Exc e],
      Returned (SeriesV [Str ''x'', Str ''y'']))"
proof -
  have "\<exists>e. clip lib [(''A'', [Str ''x'', Str ''y''])] ''A'' = Inl e"
    by (cases "Series_quantile lib [Str ''x'', Str ''y''] (19 / 20)")
       (simp_all add: clip_def Series_gt_def numeric_def)
  then obtain e where "clip lib [(''A'', [Str ''x'', Str ''y''])] ''A'' = Inl e" ..
  from fix_outlier_failed[OF this] show ?thesis by simp
qed




subsection \<open>The percentage of missing cells\<close>

lemma isnull_sum_null_cells: "sum_list (isnull_sum df) = null_cells df"
  by (induction df) (auto simp: isnull_sum_def null_cells_def)

lemma null_cells_le:
  assumes "\<forall>(c, s)\<in>set df. length s = n"
  shows "null_cells df \<le> n * length df"
  using assms
proof (induction df)
  case Nil
  then show ?case by (simp add: null_cells_def)
next
  case (Cons p df)
  obtain c s where p: "p = (c, s)" by (cases p)
  from Cons.prems p have s: "length s = n" by simp
  have "length (filter isnull s) \<le> length s" by (rule length_filter_le)
  with s have 1: "length (filter isnull s) \<le> n" by simp
  from Cons have 2: "null_cells df \<le> n * length df" by simp
  have "null_cells (p # df) = length (filter isnull s) + null_cells df"
    by (simp add: null_cells_def p)
  with 1 2 show ?case by simp
qed

lemma null_cells_le_shape:
  assumes "rectangular df"
  shows "null_cells df \<le> nrows df * ncols df"
proof -
  from assms have "\<forall>(c, s)\<in>set df. length s = nrows df"
    by (simp add: rectangular_def list_all_iff)
  from null_cells_le[OF this] show ?thesis by (simp add: ncols_def)
qed

lemma fl_err:
  assumes "\<bar>x\<bar> \<le> B"
  shows "\<bar>fl x - x\<bar> \<le> B / 2 ^ 53"
proof -
  have "\<bar>fl x - x\<bar> \<le> \<bar>x\<bar> / 2 ^ 53" by (rule fl_near)
  also have "\<dots> \<le> B / 2 ^ 53" using assms by (simp add: divide_right_mono)
  finally show ?thesis .
qed

lemma quotient_err:
  fixes M C a b :: rat
  assumes M: "0 \<le> M" "M \<le> C" and C: "1 \<le> C"
    and a: "\<bar>a - M\<bar> \<le> M / 2 ^ 53" and b: "\<bar>b - C\<bar> \<le> C / 2 ^ 53"
  shows "\<bar>a / b - M / C\<bar> \<le> 3 / 2 ^ 53"
proof -
  define u :: rat where "u = 1 / 2 ^ 53"
  have u: "0 < u" "u \<le> 1 / 3" by (simp_all add: u_def)
  have a': "\<bar>a - M\<bar> \<le> M * u" and b': "\<bar>b - C\<bar> \<le> C * u"
    using a b by (simp_all add: u_def)
  have Cu: "C * u \<le> C / 3" using u(2) C by (simp add: field_simps)
  have bpos: "C * (1 - u) \<le> b" using b' by (simp add: algebra_simps abs_le_iff)
  have "0 < C * (1 - u)" using C u by simp
  with bpos have b0: "0 < b" by linarith
  have "a * C - M * b = (a - M) * C - M * (b - C)" by (simp add: algebra_simps)
  then have "\<bar>a * C - M * b\<bar> \<le> \<bar>a - M\<bar> * C + M * \<bar>b - C\<bar>"
    using M C by (simp add: abs_mult abs_triangle_ineq4[THEN order_trans])
  also have "\<dots> \<le> (M * u) * C + M * (C * u)"
    using a' b' M C by (intro add_mono mult_right_mono mult_left_mono) simp_all
  also have "\<dots> = 2 * u * (M * C)" by (simp add: algebra_simps)
  also have "\<dots> \<le> 2 * u * (C * C)"
    using u M C by (intro mult_left_mono mult_right_mono) simp_all
  finally have num: "\<bar>a * C - M * b\<bar> \<le> 2 * u * (C * C)" .
  have "2 * (C * C) \<le> 3 * (C * (1 - u)) * C"
  proof -
    have "2 \<le> 3 * (1 - u)" using u by simp
    then have "2 * (C * C) \<le> (3 * (1 - u)) * (C * C)"
      using C by (intro mult_right_mono) simp_all
    then show ?thesis by (simp add: algebra_simps)
  qed
  also have "\<dots> \<le> 3 * b * C"
    using bpos C by (intro mult_right_mono mult_left_mono) simp_all
  finally have "2 * (C * C) \<le> 3 * b * C" .
  then have "u * (2 * (C * C)) \<le> u * (3 * b * C)"
    using u(1) by (intro mult_left_mono) simp_all
  then have "2 * u * (C * C) \<le> 3 * u * (b * C)"
    by (simp add: mult_ac)
  with num have "\<bar>a * C - M * b\<bar> \<le> 3 * u * (b * C)" by linarith
  moreover have "a / b - M / C = (a * C - M * b) / (b * C)"
    using b0 C by (simp add: field_simps)
  moreover have "0 < b * C" using b0 C by simp
  ultimately have "\<bar>a / b - M / C\<bar> \<le> 3 * u"
    by (simp add: abs_divide pos_divide_le_eq abs_of_pos)
  then show ?thesis by (simp add: u_def)
qed

lemma percent_near:
  assumes "m \<le> c" and "0 < c"
  shows "\<bar>np_round (fl (fl (fl (of_nat m) / fl (of_nat c)) * 100)) 10
           - 100 * of_nat m / of_nat c\<bar> \<le> 1 / 10 ^ 10"
proof -
  define u :: rat where "u = 1 / 2 ^ 53"
  define M :: rat where "M = of_nat m"
  define C :: rat where "C = of_nat c"
  define x0 where "x0 = M / C"
  define r where "r = fl M / fl C"
  define x1 where "x1 = fl r"
  define x2 where "x2 = fl (x1 * 100)"
  define x3 where "x3 = fl (x2 * 10000000000)"
  define k where "k = round_half_even x3"
  define v where "v = fl (of_int k / 10000000000)"
  have u: "0 < u" "u \<le> 1 / 9000000000000000" by (simp_all add: u_def)
  have MC: "0 \<le> M" "M \<le> C" "1 \<le> C" using assms by (simp_all add: M_def C_def)
  have x0: "0 \<le> x0" "x0 \<le> 1" using MC by (simp_all add: x0_def)
  have "\<bar>fl M - M\<bar> \<le> M / 2 ^ 53" using fl_near[of M] MC by simp
  moreover have "\<bar>fl C - C\<bar> \<le> C / 2 ^ 53" using fl_near[of C] MC by simp
  ultimately have "\<bar>r - x0\<bar> \<le> 3 / 2 ^ 53"
    unfolding r_def x0_def by (rule quotient_err[OF MC])
  then have r: "\<bar>r - x0\<bar> \<le> 3 * u" by (simp add: u_def)
  with x0 u have rb: "\<bar>r\<bar> \<le> 2" by linarith
  from fl_err[OF rb] have "\<bar>x1 - r\<bar> \<le> 2 * u" by (simp add: x1_def u_def)
  with r have e1: "\<bar>x1 - x0\<bar> \<le> 5 * u" by linarith
  with x0 u have "\<bar>x1 * 100\<bar> \<le> 200" by linarith
  from fl_err[OF this] have "\<bar>x2 - x1 * 100\<bar> \<le> 200 * u" by (simp add: x2_def u_def)
  with e1 have e2: "\<bar>x2 - 100 * x0\<bar> \<le> 700 * u" by linarith
  with x0 u have "\<bar>x2 * 10000000000\<bar> \<le> 1010000000000" by linarith
  from fl_err[OF this] have "\<bar>x3 - x2 * 10000000000\<bar> \<le> 1010000000000 * u"
    by (simp add: x3_def u_def)
  with e2 u have e3: "\<bar>x3 - 1000000000000 * x0\<bar> \<le> 1 / 1000" by linarith
  have "\<bar>of_int k - x3\<bar> \<le> 1 / 2" unfolding k_def by (rule round_half_even_near)
  with e3 have e4: "\<bar>rat_of_int k - 1000000000000 * x0\<bar> \<le> 501 / 1000" by linarith
  with x0 have kb: "\<bar>rat_of_int k\<bar> \<le> 1010000000000" by linarith
  have "\<bar>rat_of_int k / 10000000000\<bar> = \<bar>rat_of_int k\<bar> / 10000000000" by simp
  with kb have "\<bar>rat_of_int k / 10000000000\<bar> \<le> 101" by linarith
  from fl_err[OF this] have "\<bar>v - of_int k / 10000000000\<bar> \<le> 101 * u"
    by (simp add: v_def u_def)
  with e4 u have "\<bar>v - 100 * x0\<bar> \<le> 1 / 10000000000" by linarith
  moreover have "v = np_round (fl (fl (fl (of_nat m) / fl (of_nat c)) * 100)) 10"
    by (simp add: v_def k_def x3_def x2_def x1_def r_def M_def C_def np_round_def)
  moreover have "100 * x0 = 100 * of_nat m / of_nat c"
    by (simp add: x0_def M_def C_def)
  ultimately show ?thesis by simp
qed

lemma percent_zero: "np_round (fl (fl (fl 0 / fl (of_nat c)) * 100)) 10 = 0"
  by (simp add: np_round_def fl_zero round_half_even_def)

text \<open>
  C6, as stated, fails: the quotient, its product with 100 and the rounding to 10 places
  are all done in doubles. With 3064 null cells out of 3347 the exact percentage is
  \<open>91.54466686585001...\<close>, whose rounding to 10 places is \<open>91.5446668659\<close>; the method prints
  the double nearest to \<open>91.5446668658\<close>, more than half a unit of the tenth place away.
\<close>

theorem percent_missing_rounding_counterexample:
  "null_cells [(''A'', replicate 3064 NaN @ replicate 283 (Num 1))] = 3064 \<and>
   nrows [(''A'', replicate 3064 NaN @ replicate 283 (Num 1))]
     * ncols [(''A'', replicate 3064 NaN @ replicate 283 (Num 1))] = 3347 \<and>
   percent_missing [(''A'', replicate 3064 NaN @ replicate 283 (Num 1))]
     = ([Percent (Num (fl (915446668658 / 10 ^ 10)))], Returned NoneV) \<and>
   \<bar>915446668659 / 10 ^ 10 - 100 * 3064 / (3347::rat)\<bar> < 1 / (2 * 10 ^ 10) \<and>
   1 / (2 * 10 ^ 10) < \<bar>fl (915446668658 / 10 ^ 10) - 100 * 3064 / 3347\<bar>"
proof -
  let ?df = "[(''A'', replicate 3064 NaN @ replicate 283 (Num 1))]"
  have nulls: "null_cells ?df = 3064"
    by (simp add: null_cells_def)
  have cells: "nrows ?df * ncols ?df = 3347"
    by (simp add: nrows_def ncols_def)
  have miss: "sum_list (isnull_sum ?df) = 3064"
    by (simp add: isnull_sum_def)
  have val: "np_round (fl (fl (fl 3064 / fl 3347) * 100)) 10 = fl (915446668658 / 10 ^ 10)"
    by code_simp
  have printed: "percent_missing ?df = ([Percent (Num (fl (915446668658 / 10 ^ 10)))], Returned NoneV)"
    using cells by (simp add: percent_missing_def shape_def miss val)
  have near: "\<bar>915446668659 / 10 ^ 10 - 100 * 3064 / (3347::rat)\<bar> < 1 / (2 * 10 ^ 10)"
    by simp
  have dbl: "fl (915446668658 / 10 ^ 10) = 3220941621754477 / 35184372088832"
    by code_simp
  have far: "1 / (2 * 10 ^ 10) < \<bar>fl (915446668658 / 10 ^ 10) - 100 * 3064 / 3347\<bar>"
    unfolding dbl by simp
  from nulls cells printed near far show ?thesis by (intro conjI)
qed

text \<open>
  C6, amended. For a frame with at least one row and one column, \<open>percent_missing\<close> prints
  the percentage \<open>100 * (null cells) / (rows * columns)\<close> as computed in doubles and rounded by
  numpy to 10 places: the double nearest to a multiple of \<open>10^-10\<close>, within \<open>10^-10\<close> of the
  exact percentage (not always the nearest multiple); it returns nothing, and with no null
  cell the printed value is 0.
\<close>

theorem percent_missing_reports:
  assumes "rectangular df" and "0 < nrows df" and "0 < ncols df"
  shows "\<exists>v. percent_missing df = ([Percent (Num v)], Returned NoneV) \<and>
           v = np_round (fl (fl (fl (of_nat (null_cells df)) / fl (of_nat (nrows df * ncols df)))
                             * 100)) 10 \<and>
           (\<exists>k::int. v = fl (of_int k / 10 ^ 10)) \<and>
           \<bar>v - 100 * of_nat (null_cells df) / of_nat (nrows df * ncols df)\<bar> \<le> 1 / 10 ^ 10 \<and>
           (null_cells df = 0 \<longrightarrow> v = 0)"
proof -
  define v where
    "v = np_round (fl (fl (fl (of_nat (null_cells df)) / fl (of_nat (nrows df * ncols df)))
                       * 100)) 10"
  have cells: "0 < nrows df * ncols df" using assms(2,3) by simp
  have le: "null_cells df \<le> nrows df * ncols df"
    by (rule null_cells_le_shape[OF assms(1)])
  have p: "percent_missing df = ([Percent (Num v)], Returned NoneV)"
    using cells by (simp add: percent_missing_def shape_def Let_def isnull_sum_null_cells v_def)
  have grid: "\<exists>k::int. v = fl (of_int k / 10 ^ 10)"
    unfolding v_def np_round_def by blast
  have near: "\<bar>v - 100 * of_nat (null_cells df) / of_nat (nrows df * ncols df)\<bar> \<le> 1 / 10 ^ 10"
    unfolding v_def by (rule percent_near[OF le cells])
  have zero: "null_cells df = 0 \<longrightarrow> v = 0"
    using percent_zero[of "nrows df * ncols df"] by (simp add: v_def)
  have "\<exists>w. percent_missing df = ([Percent (Num w)], Returned NoneV) \<and> w = v \<and>
           (\<exists>k::int. w = fl (of_int k / 10 ^ 10)) \<and>
           \<bar>w - 100 * of_nat (null_cells df) / of_nat (nrows df * ncols df)\<bar> \<le> 1 / 10 ^ 10 \<and>
           (null_cells df = 0 \<longrightarrow> w = 0)"
    by (intro exI[of _ v] conjI p grid near zero refl)
  then show ?thesis unfolding v_def .
qed

theorem percent_missing_reports_witness:
  "rectangular [(''A'', [NaN, Num 1]), (''B'', [Num 2, Num 3])] \<and>
   0 < nrows [(''A'', [NaN, Num 1]), (''B'', [Num 2, Num 3])] \<and>
   0 < ncols [(''A'', [NaN, Num 1]), (''B'', [Num 2, Num 3])] \<and>
   percent_missing [(''A'', [NaN, Num 1]), (''B'', [Num 2, Num 3])]
     = ([Percent (Num 25)], Returned NoneV)"
proof -
  have r: "rectangular [(''A'', [NaN, Num 1]), (''B'', [Num 2, Num 3])]"
    by (simp add: rectangular_def nrows_def)
  have a: "0 < nrows [(''A'', [NaN, Num 1]), (''B'', [Num 2, Num 3])]"
    by (simp add: nrows_def)
  have b: "0 < ncols [(''A'', [NaN, Num 1]), (''B'', [Num 2, Num 3])]"
    by (simp add: ncols_def)
  have n: "null_cells [(''A'', [NaN, Num 1]), (''B'', [Num 2, Num 3])] = 1"
    by (simp add: null_cells_def)
  have c: "nrows [(''A'', [NaN, Num 1]), (''B'', [Num 2, Num 3])]
             * ncols [(''A'', [NaN, Num 1]), (''B'', [Num 2, Num 3])] = 4"
    by (simp add: nrows_def ncols_def)
  have val: "np_round (fl (fl (fl (of_nat 1) / fl (of_nat 4)) * 100)) 10 = 25"
    by code_simp
  from percent_missing_reports[OF r a b] obtain v where
    "percent_missing [(''A'', [NaN, Num 1]), (''B'', [Num 2, Num 3])] = ([Percent (Num v)], Returned NoneV)"
    "v = np_round (fl (fl (fl (of_nat (null_cells [(''A'', [NaN, Num 1]), (''B'', [Num 2, Num 3])]))
           / fl (of_nat (nrows [(''A'', [NaN, Num 1]), (''B'', [Num 2, Num 3])]
                          * ncols [(''A'', [NaN, Num 1]), (''B'', [Num 2, Num 3])]))) * 100)) 10"
    by blast
  then have "percent_missing [(''A'', [NaN, Num 1]), (''B'', [Num 2, Num 3])]
     = ([Percent (Num 25)], Returned NoneV)"
    unfolding n c val by simp
  with r a b show ?thesis by blast
qed

lemma percent_missing_two_of_thirty:
  "percent_missing
     [(''A'', [NaN, NaN, Num 3, Num 4, Num 5, Num 6, Num 7, Num 8, Num 9, Num 10]),
      (''B'', [Num 1, Num 2, Num 3, Num 4, Num 5, Num 6, Num 7, Num 8, Num 9, Num 10]),
      (''C'', [Num 1, Num 2, Num 3, Num 4, Num 5, Num 6, Num 7, Num 8, Num 9, Num 10])]
   = ([Percent (Num (fl (66666666667 / 10 ^ 10)))], Returned NoneV)"
  by code_simp

subsection \<open>Filling with the median and the mean\<close>

lemma getitem_list_exists:
  assumes "\<forall>c\<in>set cols. \<exists>s. getitem df c = Inr s"
  shows "\<exists>sub. getitem_list df cols = Inr sub"
  using assms by (induction cols) auto

lemma getitem_list_entries:
  assumes "getitem_list df cols = Inr sub"
  shows "fst ` set sub = set cols \<and> (\<forall>(c, s)\<in>set sub. getitem df c = Inr s)"
  using assms
proof (induction cols arbitrary: sub)
  case Nil
  then show ?case by simp
next
  case (Cons c cs)
  from Cons.prems obtain s rest where
    s: "getitem df c = Inr s" and rest: "getitem_list df cs = Inr rest" and
    sub: "sub = (c, s) # rest"
    by (auto split: sum.splits)
  from Cons.IH[OF rest] have "fst ` set rest = set cs"
    and "\<forall>(c, s)\<in>set rest. getitem df c = Inr s" by blast+
  with s sub show ?case by simp
qed

lemma DataFrame_agg_exists:
  assumes "\<forall>(c, s)\<in>set sub. \<exists>v. stat s = Inr v"
  shows "\<exists>value. DataFrame_agg stat sub = Inr value"
  using assms by (induction sub) auto

lemma DataFrame_agg_lookup:
  assumes "DataFrame_agg stat sub = Inr value" and "(c, s) \<in> set sub"
    and "\<forall>s'. (c, s') \<in> set sub \<longrightarrow> s' = s"
  shows "\<exists>v. stat s = Inr v \<and> map_of value c = Some v"
  using assms
proof (induction sub arbitrary: "value")
  case Nil
  then show ?case by simp
next
  case (Cons p sub)
  obtain k t where p: "p = (k, t)" by (cases p)
  from Cons.prems(1) have agg: "DataFrame_agg stat ((k, t) # sub) = Inr value"
    unfolding p .
  obtain v where v: "stat t = Inr v"
    using agg by (cases "stat t") simp_all
  obtain vs where vs: "DataFrame_agg stat sub = Inr vs"
    using agg v by (cases "DataFrame_agg stat sub") simp_all
  have val: "value = (k, v) # vs"
    using agg v vs by simp
  show ?case
  proof (cases "k = c")
    case True
    with Cons.prems(3) p have "t = s" by simp
    with True v val show ?thesis by simp
  next
    case False
    have in_sub: "(c, s) \<in> set sub"
      using Cons.prems(2) False unfolding p by simp
    have uniq: "\<forall>s'. (c, s') \<in> set sub \<longrightarrow> s' = s"
      using Cons.prems(3) by (blast intro: list.set_intros(2))
    from Cons.IH[OF vs in_sub uniq] False val show ?thesis by simp
  qed
qed

lemma DataFrame_fillna_entries:
  "set (DataFrame_fillna sub value) =
     (\<lambda>(c, s). case map_of value c of None \<Rightarrow> (c, s) | Some v \<Rightarrow> (c, fillna_scalar s v)) ` set sub"
  by (simp add: DataFrame_fillna_def)

lemma getitem_setitem_list:
  assumes "c \<in> fst ` set new \<or> getitem df c = Inr t"
    and "\<forall>(c', s')\<in>set new. c' = c \<longrightarrow> s' = t"
  shows "getitem (setitem_list df new) c = Inr t"
  using assms unfolding setitem_list_def
proof (induction new arbitrary: df)
  case Nil
  then show ?case by simp
next
  case (Cons p new)
  obtain k s where p: "p = (k, s)" by (cases p)
  show ?case
  proof (cases "k = c")
    case True
    with Cons.prems(2) p have "s = t" by simp
    with True have "getitem (setitem df k s) c = Inr t" by (simp add: getitem_setitem)
    with Cons.IH[of "setitem df k s"] Cons.prems(2) p show ?thesis by simp
  next
    case False
    then have "getitem (setitem df k s) c = getitem df c"
      by (simp add: getitem_setitem_other)
    with Cons.prems p False have "c \<in> fst ` set new \<or> getitem (setitem df k s) c = Inr t"
      by auto
    with Cons.IH[of "setitem df k s"] Cons.prems(2) p show ?thesis by simp
  qed
qed

lemma fill_cols_fills:
  assumes "\<forall>c\<in>set cols. \<exists>s v. getitem df c = Inr s \<and> stat s = Inr v"
    and "distinct cols"
  shows "\<exists>d. fill_cols stat df cols = Inr d \<and>
           (\<forall>c\<in>set cols. \<forall>s v. getitem df c = Inr s \<and> stat s = Inr v \<longrightarrow>
              getitem d c = Inr (fillna_scalar s v))"
proof -
  from assms(1) have "\<forall>c\<in>set cols. \<exists>s. getitem df c = Inr s" by blast
  from getitem_list_exists[OF this] obtain sub where sub: "getitem_list df cols = Inr sub"
    by blast
  note ent = getitem_list_entries[OF sub]
  have "\<forall>(c, s)\<in>set sub. \<exists>v. stat s = Inr v"
  proof (clarify)
    fix c s assume cs: "(c, s) \<in> set sub"
    with ent have "c \<in> set cols" and "getitem df c = Inr s" by force+
    with assms(1) show "\<exists>v. stat s = Inr v" by fastforce
  qed
  from DataFrame_agg_exists[OF this] obtain "value" where
    val: "DataFrame_agg stat sub = Inr value" by blast
  let ?d = "setitem_list df (DataFrame_fillna sub value)"
  have d: "fill_cols stat df cols = Inr ?d"
    by (simp add: fill_cols_def sub val setitem_frame_def assms(2))
  have "\<forall>c\<in>set cols. \<forall>s v. getitem df c = Inr s \<and> stat s = Inr v \<longrightarrow>
          getitem ?d c = Inr (fillna_scalar s v)"
  proof (intro ballI allI impI)
    fix c s v assume c: "c \<in> set cols" and sv: "getitem df c = Inr s \<and> stat s = Inr v"
    from c ent obtain s0 where "(c, s0) \<in> set sub" by force
    with ent sv have in_sub: "(c, s) \<in> set sub" by force
    have uniq: "\<forall>s'. (c, s') \<in> set sub \<longrightarrow> s' = s" using ent sv by force
    from DataFrame_agg_lookup[OF val in_sub uniq] sv have look: "map_of value c = Some v"
      by simp
    have 1: "c \<in> fst ` set (DataFrame_fillna sub value)"
      using in_sub by (force simp: DataFrame_fillna_entries split: option.splits)
    have 2: "\<forall>(c', s')\<in>set (DataFrame_fillna sub value). c' = c \<longrightarrow> s' = fillna_scalar s v"
      using uniq look by (auto simp: DataFrame_fillna_entries split: option.splits)
    show "getitem ?d c = Inr (fillna_scalar s v)"
      by (rule getitem_setitem_list[OF disjI1[OF 1] 2])
  qed
  with d show ?thesis by blast
qed

lemma filled_column:
  assumes "i < length s" and "\<not> isnull v"
  shows "\<not> isnull (fillna_scalar s v ! i) \<and>
         (\<not> isnull (s ! i) \<longrightarrow> fillna_scalar s v ! i = s ! i) \<and>
         (isnull (s ! i) \<longrightarrow> fillna_scalar s v ! i = v)"
  using assms by (simp add: fillna_scalar_def)

lemma fill_cols_column:
  assumes "distinct cols"
    and "\<forall>c\<in>set cols. \<exists>s v. getitem df c = Inr s \<and> stat s = Inr v \<and> \<not> isnull v"
    and "c \<in> set cols" and "getitem df c = Inr s" and "stat s = Inr v"
  shows "\<exists>d s'. fill_cols stat df cols = Inr d \<and> getitem d c = Inr s' \<and> length s' = length s \<and>
           (\<forall>i<length s. \<not> isnull (s' ! i) \<and>
              (\<not> isnull (s ! i) \<longrightarrow> s' ! i = s ! i) \<and>
              (isnull (s ! i) \<longrightarrow> s' ! i = v))"
proof -
  from assms(2) have "\<forall>c\<in>set cols. \<exists>s v. getitem df c = Inr s \<and> stat s = Inr v" by blast
  from fill_cols_fills[OF this assms(1)] obtain d where
    d: "fill_cols stat df cols = Inr d" and
    g: "\<forall>c\<in>set cols. \<forall>s v. getitem df c = Inr s \<and> stat s = Inr v \<longrightarrow>
          getitem d c = Inr (fillna_scalar s v)"
    by blast
  from g assms(3,4,5) have gc: "getitem d c = Inr (fillna_scalar s v)" by blast
  from assms(2,3) obtain s0 v0 where
    "getitem df c = Inr s0" "stat s0 = Inr v0" "\<not> isnull v0" by blast
  with assms(4,5) have nn: "\<not> isnull v" by simp
  have len: "length (fillna_scalar s v) = length s" by (simp add: fillna_scalar_def)
  have "\<forall>i<length s. \<not> isnull (fillna_scalar s v ! i) \<and>
          (\<not> isnull (s ! i) \<longrightarrow> fillna_scalar s v ! i = s ! i) \<and>
          (isnull (s ! i) \<longrightarrow> fillna_scalar s v ! i = v)"
    using filled_column[OF _ nn] by blast
  with d gc len show ?thesis by blast
qed

text \<open>
  C5, as stated, fails on a list that names a column twice: the assignment \<open>df[cols] = ...\<close>
  raises, the exception is printed, and the frame is returned with its null still in place.
\<close>

theorem fillWithMedian_repeated_label_counterexample:
  "fillWithMedian exact_pandas [(''A'', [Num 1, NaN, Num 4])] [''A'', ''A''] =
     ([(''A'', [Num 1, NaN, Num 4])],
      [TextCols ''columns to be filled with median values: '' [''A'', ''A''], Exc ValueError],
      Returned (FrameV [(''A'', [Num 1, NaN, Num 4])])) \<and>
   fillWithMean exact_pandas [(''A'', [Num 1, NaN, Num 4])] [''A'', ''A''] =
     ([(''A'', [Num 1, NaN, Num 4])],
      [TextCols ''columns to be filled with mean values: '' [''A'', ''A''], Exc ValueError],
      Returned (FrameV [(''A'', [Num 1, NaN, Num 4])]))"
  by code_simp

text \<open>
  C5, amended. For a frame and a list of existing columns, each named once, whose median
  (mean) pandas computes and finds not null, after \<open>fillWithMedian\<close> (\<open>fillWithMean\<close>) each
  listed column has no null cell, every cell that was not null is unchanged, and every cell
  that was null holds the median (the mean) that pandas computed for that column before the
  call.
\<close>

theorem fillWithMedian_fillWithMean_fill:
  assumes "distinct cols"
    and "\<forall>c\<in>set cols. \<exists>s. getitem df c = Inr s \<and>
           (\<exists>v. Series_median lib s = Inr v \<and> \<not> isnull v) \<and>
           (\<exists>v. Series_mean lib s = Inr v \<and> \<not> isnull v)"
  shows "(\<forall>c\<in>set cols. \<forall>s v. getitem df c = Inr s \<and> Series_median lib s = Inr v \<longrightarrow>
            (\<exists>s'. getitem (fst (fillWithMedian lib df cols)) c = Inr s' \<and> length s' = length s \<and>
               (\<forall>i<length s. \<not> isnull (s' ! i) \<and>
                  (\<not> isnull (s ! i) \<longrightarrow> s' ! i = s ! i) \<and>
                  (isnull (s ! i) \<longrightarrow> s' ! i = v)))) \<and>
         (\<forall>c\<in>set cols. \<forall>s v. getitem df c = Inr s \<and> Series_mean lib s = Inr v \<longrightarrow>
            (\<exists>s'. getitem (fst (fillWithMean lib df cols)) c = Inr s' \<and> length s' = length s \<and>
               (\<forall>i<length s. \<not> isnull (s' ! i) \<and>
                  (\<not> isnull (s ! i) \<longrightarrow> s' ! i = s ! i) \<and>
                  (isnull (s ! i) \<longrightarrow> s' ! i = v))))"
proof (intro conjI ballI allI impI)
  fix c s v
  assume c: "c \<in> set cols" and sv: "getitem df c = Inr s \<and> Series_median lib s = Inr v"
  have "\<forall>c\<in>set cols. \<exists>s v. getitem df c = Inr s \<and> Series_median lib s = Inr v \<and> \<not> isnull v"
    using assms(2) by blast
  from fill_cols_column[OF assms(1) this c] sv obtain d s' where
    d: "fill_cols (Series_median lib) df cols = Inr d" and
    r: "getitem d c = Inr s'" "length s' = length s"
       "\<forall>i<length s. \<not> isnull (s' ! i) \<and> (\<not> isnull (s ! i) \<longrightarrow> s' ! i = s ! i) \<and>
          (isnull (s ! i) \<longrightarrow> s' ! i = v)"
    by blast
  have "fst (fillWithMedian lib df cols) = d" by (simp add: fillWithMedian_def d)
  with r show "\<exists>s'. getitem (fst (fillWithMedian lib df cols)) c = Inr s' \<and> length s' = length s \<and>
               (\<forall>i<length s. \<not> isnull (s' ! i) \<and>
                  (\<not> isnull (s ! i) \<longrightarrow> s' ! i = s ! i) \<and>
                  (isnull (s ! i) \<longrightarrow> s' ! i = v))"
    by blast
next
  fix c s v
  assume c: "c \<in> set cols" and sv: "getitem df c = Inr s \<and> Series_mean lib s = Inr v"
  have "\<forall>c\<in>set cols. \<exists>s v. getitem df c = Inr s \<and> Series_mean lib s = Inr v \<and> \<not> isnull v"
    using assms(2) by blast
  from fill_cols_column[OF assms(1) this c] sv obtain d s' where
    d: "fill_cols (Series_mean lib) df cols = Inr d" and
    r: "getitem d c = Inr s'" "length s' = length s"
       "\<forall>i<length s. \<not> isnull (s' ! i) \<and> (\<not> isnull (s ! i) \<longrightarrow> s' ! i = s ! i) \<and>
          (isnull (s ! i) \<longrightarrow> s' ! i = v)"
    by blast
  have "fst (fillWithMean lib df cols) = d" by (simp add: fillWithMean_def d)
  with r show "\<exists>s'. getitem (fst (fillWithMean lib df cols)) c = Inr s' \<and> length s' = length s \<and>
               (\<forall>i<length s. \<not> isnull (s' ! i) \<and>
                  (\<not> isnull (s ! i) \<longrightarrow> s' ! i = s ! i) \<and>
                  (isnull (s ! i) \<longrightarrow> s' ! i = v))"
    by blast
qed

theorem fillWithMedian_fillWithMean_fill_witness:
  "distinct [''A''] \<and>
   getitem [(''A'', [Num 1, NaN, Num 4])] ''A'' = Inr [Num 1, NaN, Num 4] \<and>
   Series_median exact_pandas [Num 1, NaN, Num 4] = Inr (Num (5 / 2)) \<and>
   Series_mean exact_pandas [Num 1, NaN, Num 4] = Inr (Num (5 / 2)) \<and>
   (\<exists>s'. getitem (fst (fillWithMedian exact_pandas [(''A'', [Num 1, NaN, Num 4])] [''A''])) ''A''
           = Inr s' \<and>
      s' ! 0 = Num 1 \<and> s' ! 1 = Num (5 / 2)) \<and>
   (\<exists>s'. getitem (fst (fillWithMean exact_pandas [(''A'', [Num 1, NaN, Num 4])] [''A''])) ''A''
           = Inr s' \<and>
      s' ! 0 = Num 1 \<and> s' ! 1 = Num (5 / 2))"
proof -
  have dist: "distinct [''A'']" by simp
  have g: "getitem [(''A'', [Num 1, NaN, Num 4])] ''A'' = Inr [Num 1, NaN, Num 4]" by simp
  have med: "Series_median exact_pandas [Num 1, NaN, Num 4] = Inr (Num (5 / 2))" by code_simp
  have avg: "Series_mean exact_pandas [Num 1, NaN, Num 4] = Inr (Num (5 / 2))" by code_simp
  have a: "\<forall>c\<in>set [''A'']. \<exists>s. getitem [(''A'', [Num 1, NaN, Num 4])] c = Inr s \<and>
           (\<exists>v. Series_median exact_pandas s = Inr v \<and> \<not> isnull v) \<and>
           (\<exists>v. Series_mean exact_pandas s = Inr v \<and> \<not> isnull v)"
    using med avg by simp
  have mem: "''A'' \<in> set [''A'']" by simp
  have i0: "0 < length [Num 1, NaN, Num 4]" and i1: "1 < length [Num 1, NaN, Num 4]"
    by simp_all
  note all = fillWithMedian_fillWithMean_fill[OF dist a]
  from all[THEN conjunct1, rule_format, OF mem conjI[OF g med]] obtain s1 where
    g1: "getitem (fst (fillWithMedian exact_pandas [(''A'', [Num 1, NaN, Num 4])] [''A''])) ''A''
           = Inr s1" and
    r1: "\<forall>i<length [Num 1, NaN, Num 4]. \<not> isnull (s1 ! i) \<and>
           (\<not> isnull ([Num 1, NaN, Num 4] ! i) \<longrightarrow> s1 ! i = [Num 1, NaN, Num 4] ! i) \<and>
           (isnull ([Num 1, NaN, Num 4] ! i) \<longrightarrow> s1 ! i = Num (5 / 2))"
    by blast
  from r1[rule_format, OF i0] have m0: "s1 ! 0 = Num 1" by simp
  from r1[rule_format, OF i1] have m1: "s1 ! 1 = Num (5 / 2)" by simp
  from all[THEN conjunct2, rule_format, OF mem conjI[OF g avg]] obtain s2 where
    g2: "getitem (fst (fillWithMean exact_pandas [(''A'', [Num 1, NaN, Num 4])] [''A''])) ''A''
           = Inr s2" and
    r2: "\<forall>i<length [Num 1, NaN, Num 4]. \<not> isnull (s2 ! i) \<and>
           (\<not> isnull ([Num 1, NaN, Num 4] ! i) \<longrightarrow> s2 ! i = [Num 1, NaN, Num 4] ! i) \<and>
           (isnull ([Num 1, NaN, Num 4] ! i) \<longrightarrow> s2 ! i = Num (5 / 2))"
    by blast
  from r2[rule_format, OF i0] have n0: "s2 ! 0 = Num 1" by simp
  from r2[rule_format, OF i1] have n1: "s2 ! 1 = Num (5 / 2)" by simp
  from dist g med avg g1 m0 m1 g2 n0 n1 show ?thesis by blast
qed

subsection \<open>The sweep over cluster counts\<close>

lemma sweep_run:
  assumes "sweep fit cdist_min df K (ds, is) = ((ds', is'), err)"
  shows "\<exists>xs. ds' = ds @ map fst xs \<and> is' = is @ map snd xs \<and> length xs \<le> length K \<and>
           (\<forall>j<length xs. step fit cdist_min df (K ! j) = Inr (xs ! j)) \<and>
           (err = None \<longrightarrow> length xs = length K) \<and>
           (\<forall>e. err = Some e \<longrightarrow>
              length xs < length K \<and> step fit cdist_min df (K ! length xs) = Inl e)"
  using assms
proof (induction K arbitrary: ds "is")
  case Nil
  then have "ds' = ds @ map fst []" "is' = is @ map snd []" "err = None" by simp_all
  then show ?case by (intro exI[of _ "[]"]) simp
next
  case (Cons k K)
  show ?case
  proof (cases "step fit cdist_min df k")
    case (Inl e)
    with Cons.prems have "ds' = ds" "is' = is" "err = Some e" by simp_all
    with Inl show ?thesis by (intro exI[of _ "[]"]) simp
  next
    case (Inr r)
    obtain d i where r: "r = (d, i)" by (cases r)
    from Cons.prems Inr r have
      "sweep fit cdist_min df K (ds @ [d], is @ [i]) = ((ds', is'), err)" by simp
    from Cons.IH[OF this] obtain xs where
      xs: "ds' = (ds @ [d]) @ map fst xs" "is' = (is @ [i]) @ map snd xs" "length xs \<le> length K"
          "\<forall>j<length xs. step fit cdist_min df (K ! j) = Inr (xs ! j)"
          "err = None \<longrightarrow> length xs = length K"
          "\<forall>e. err = Some e \<longrightarrow>
              length xs < length K \<and> step fit cdist_min df (K ! length xs) = Inl e"
      by blast
    have nth: "\<forall>j<length ((d, i) # xs). step fit cdist_min df ((k # K) ! j) = Inr (((d, i) # xs) ! j)"
    proof (intro allI impI)
      fix j assume "j < length ((d, i) # xs)"
      then show "step fit cdist_min df ((k # K) ! j) = Inr (((d, i) # xs) ! j)"
        using xs(4) Inr r by (cases j) simp_all
    qed
    show ?thesis
      using xs(1,2,3,5,6) nth by (intro exI[of _ "(d, i) # xs"]) simp
  qed
qed

lemma range_nth: "i < nat (num - 1) \<Longrightarrow> [1..num - 1] ! i = int i + 1"
  by (simp add: nth_upto)

lemma range_length: "length [1..num - 1] = nat (num - 1)"
  by simp

lemma choose_k_means_run:
  "\<exists>xs err. sweep fit cdist_min df [1..num - 1] ([], []) = ((map fst xs, map snd xs), err) \<and>
     choose_k_means fit cdist_min df num =
       ((case err of None \<Rightarrow> [] | Some e \<Rightarrow> [Exc e]), Returned (PairV (map fst xs) (map snd xs))) \<and>
     length xs \<le> nat (num - 1) \<and>
     (\<forall>j<length xs. step fit cdist_min df (int j + 1) = Inr (xs ! j)) \<and>
     (err = None \<longrightarrow> length xs = nat (num - 1)) \<and>
     (\<forall>e. err = Some e \<longrightarrow>
        length xs < nat (num - 1) \<and> step fit cdist_min df (int (length xs) + 1) = Inl e)"
proof -
  obtain ds' is' err where
    sw: "sweep fit cdist_min df [1..num - 1] ([], []) = ((ds', is'), err)"
    by (metis surj_pair)
  from sweep_run[OF sw] obtain xs where
    xs: "ds' = map fst xs" "is' = map snd xs" "length xs \<le> length [1..num - 1]"
        "\<forall>j<length xs. step fit cdist_min df ([1..num - 1] ! j) = Inr (xs ! j)"
        "err = None \<longrightarrow> length xs = length [1..num - 1]"
        "\<forall>e. err = Some e \<longrightarrow>
           length xs < length [1..num - 1] \<and> step fit cdist_min df ([1..num - 1] ! length xs) = Inl e"
    by auto
  have len: "length xs \<le> nat (num - 1)" using xs(3) by simp
  have steps: "\<forall>j<length xs. step fit cdist_min df (int j + 1) = Inr (xs ! j)"
  proof (intro allI impI)
    fix j assume j: "j < length xs"
    with len have "j < nat (num - 1)" by simp
    from xs(4) j have "step fit cdist_min df ([1..num - 1] ! j) = Inr (xs ! j)" by blast
    then show "step fit cdist_min df (int j + 1) = Inr (xs ! j)"
      unfolding range_nth[OF \<open>j < nat (num - 1)\<close>] .
  qed
  have none: "err = None \<longrightarrow> length xs = nat (num - 1)" using xs(5) by simp
  have some: "\<forall>e. err = Some e \<longrightarrow>
        length xs < nat (num - 1) \<and> step fit cdist_min df (int (length xs) + 1) = Inl e"
  proof (intro allI impI)
    fix e assume e: "err = Some e"
    with xs(6) have lt: "length xs < nat (num - 1)"
      and st: "step fit cdist_min df ([1..num - 1] ! length xs) = Inl e" by simp_all
    from st have "step fit cdist_min df (int (length xs) + 1) = Inl e"
      unfolding range_nth[OF lt] .
    with lt
    show "length xs < nat (num - 1) \<and> step fit cdist_min df (int (length xs) + 1) = Inl e"
      by blast
  qed
  have ch: "choose_k_means fit cdist_min df num =
       ((case err of None \<Rightarrow> [] | Some e \<Rightarrow> [Exc e]), Returned (PairV (map fst xs) (map snd xs)))"
    using sw xs(1,2) by (cases err) (simp_all add: choose_k_means_def)
  from sw xs(1,2) ch len steps none some show ?thesis by blast
qed

text \<open>
  C7. When every round of the sweep, for \<open>k\<close> from 1 up to but excluding \<open>num\<close>, runs without
  an exception and \<open>num\<close> is at least 1, \<open>choose_k_means\<close> prints nothing and returns two lists
  of length \<open>num - 1\<close>, whose entry at position \<open>j\<close> is the distortion and the inertia of
  \<open>k = j + 1\<close>; for \<open>num = 1\<close> both lists are empty.
\<close>

theorem choose_k_means_lengths:
  assumes "1 \<le> num"
    and "\<forall>k. 1 \<le> k \<and> k < num \<longrightarrow> (\<exists>r. step fit cdist_min df k = Inr r)"
  shows "\<exists>distortions inertias.
           choose_k_means fit cdist_min df num = ([], Returned (PairV distortions inertias)) \<and>
           length distortions = nat (num - 1) \<and> length inertias = nat (num - 1) \<and>
           (\<forall>j<nat (num - 1).
              step fit cdist_min df (int j + 1) = Inr (distortions ! j, inertias ! j)) \<and>
           (num = 1 \<longrightarrow> distortions = [] \<and> inertias = [])"
proof -
  from choose_k_means_run[of fit cdist_min df num] obtain xs err where
    ch: "choose_k_means fit cdist_min df num =
           ((case err of None \<Rightarrow> [] | Some e \<Rightarrow> [Exc e]), Returned (PairV (map fst xs) (map snd xs)))"
    and steps: "\<forall>j<length xs. step fit cdist_min df (int j + 1) = Inr (xs ! j)"
    and none: "err = None \<longrightarrow> length xs = nat (num - 1)"
    and some: "\<forall>e. err = Some e \<longrightarrow>
        length xs < nat (num - 1) \<and> step fit cdist_min df (int (length xs) + 1) = Inl e"
    by blast
  have err: "err = None"
  proof (cases err)
    case None
    then show ?thesis .
  next
    case (Some e)
    with some have lt: "length xs < nat (num - 1)"
      and st: "step fit cdist_min df (int (length xs) + 1) = Inl e" by simp_all
    from lt have "1 \<le> int (length xs) + 1 \<and> int (length xs) + 1 < num" by linarith
    with assms(2) obtain r where "step fit cdist_min df (int (length xs) + 1) = Inr r" by blast
    with st show ?thesis by simp
  qed
  with none have len: "length xs = nat (num - 1)" by simp
  have 1: "choose_k_means fit cdist_min df num = ([], Returned (PairV (map fst xs) (map snd xs)))"
    using ch err by simp
  have 2: "\<forall>j<nat (num - 1).
              step fit cdist_min df (int j + 1) = Inr (map fst xs ! j, map snd xs ! j)"
    using steps len by simp
  have 3: "num = 1 \<longrightarrow> map fst xs = [] \<and> map snd xs = []"
    using len by auto
  from 1 2 3 len show ?thesis
    by (intro exI[of _ "map fst xs"] exI[of _ "map snd xs"]) simp
qed

theorem choose_k_means_lengths_witness:
  "(1::int) \<le> 3 \<and>
   (\<exists>distortions inertias.
      choose_k_means (\<lambda>df k. Inr \<lparr>cluster_centers = [], inertia = 2\<rparr>) (\<lambda>df cs. Inr [3])
          [(''A'', [Num 1])] 3
        = ([], Returned (PairV distortions inertias)) \<and>
      length distortions = nat (3 - 1) \<and> length inertias = nat (3 - 1) \<and>
      (\<forall>j<nat (3 - 1).
         step (\<lambda>df k. Inr \<lparr>cluster_centers = [], inertia = 2\<rparr>) (\<lambda>df cs. Inr [3])
             [(''A'', [Num 1])] (int j + 1)
           = Inr (distortions ! j, inertias ! j)) \<and>
      ((3::int) = 1 \<longrightarrow> distortions = [] \<and> inertias = []))"
proof -
  have a: "(1::int) \<le> 3" by simp
  have b: "\<forall>k. 1 \<le> k \<and> k < 3 \<longrightarrow>
             (\<exists>r. step (\<lambda>df k. Inr \<lparr>cluster_centers = [], inertia = 2\<rparr>) (\<lambda>df cs. Inr [3])
                     [(''A'', [Num 1])] k = Inr r)"
    by (simp add: step_def shape_def nrows_def)
  show ?thesis
    by (intro conjI a choose_k_means_lengths[OF a b])
qed

text \<open>
  C8. When the rounds for every \<open>k\<close> below some \<open>j\<close> in \<open>[1, num)\<close> succeed and the round for
  \<open>j\<close> raises, \<open>choose_k_means\<close> prints the exception and returns, as an ordinary result, the two
  lists built so far: both of length \<open>j - 1\<close>, holding the entries of the completed rounds.
\<close>

theorem choose_k_means_partial:
  assumes "1 \<le> j" and "j < num"
    and "\<forall>k. 1 \<le> k \<and> k < j \<longrightarrow> (\<exists>r. step fit cdist_min df k = Inr r)"
    and "step fit cdist_min df j = Inl e"
  shows "\<exists>distortions inertias.
           choose_k_means fit cdist_min df num = ([Exc e], Returned (PairV distortions inertias)) \<and>
           length distortions = nat (j - 1) \<and> length inertias = nat (j - 1) \<and>
           (\<forall>i<nat (j - 1).
              step fit cdist_min df (int i + 1) = Inr (distortions ! i, inertias ! i))"
proof -
  from choose_k_means_run[of fit cdist_min df num] obtain xs err where
    ch: "choose_k_means fit cdist_min df num =
           ((case err of None \<Rightarrow> [] | Some e \<Rightarrow> [Exc e]), Returned (PairV (map fst xs) (map snd xs)))"
    and steps: "\<forall>j<length xs. step fit cdist_min df (int j + 1) = Inr (xs ! j)"
    and none: "err = None \<longrightarrow> length xs = nat (num - 1)"
    and some: "\<forall>e. err = Some e \<longrightarrow>
        length xs < nat (num - 1) \<and> step fit cdist_min df (int (length xs) + 1) = Inl e"
    by blast
  have reach: "length xs \<le> nat (j - 1)"
  proof (rule ccontr)
    assume "\<not> length xs \<le> nat (j - 1)"
    then have "nat (j - 1) < length xs" by simp
    with steps have "step fit cdist_min df (int (nat (j - 1)) + 1) = Inr (xs ! nat (j - 1))"
      by blast
    moreover have "int (nat (j - 1)) + 1 = j" using assms(1) by simp
    ultimately show False using assms(4) by simp
  qed
  obtain e' where e': "err = Some e'"
  proof (cases err)
    case None
    with none have "length xs = nat (num - 1)" by simp
    with reach assms(1,2) have False by linarith
    then show ?thesis ..
  next
    case (Some a)
    then show ?thesis by (rule that)
  qed
  with some have st: "step fit cdist_min df (int (length xs) + 1) = Inl e'" by simp
  have len: "length xs = nat (j - 1)"
  proof (rule ccontr)
    assume "length xs \<noteq> nat (j - 1)"
    with reach have "length xs < nat (j - 1)" by simp
    then have "1 \<le> int (length xs) + 1 \<and> int (length xs) + 1 < j" by linarith
    with assms(3) obtain r where "step fit cdist_min df (int (length xs) + 1) = Inr r" by blast
    with st show False by simp
  qed
  then have "int (length xs) + 1 = j" using assms(1) by simp
  with st assms(4) have "e' = e" by simp
  with ch e' have 1:
    "choose_k_means fit cdist_min df num = ([Exc e], Returned (PairV (map fst xs) (map snd xs)))"
    by simp
  have 2: "\<forall>i<nat (j - 1).
              step fit cdist_min df (int i + 1) = Inr (map fst xs ! i, map snd xs ! i)"
    using steps len by simp
  from 1 2 len show ?thesis
    by (intro exI[of _ "map fst xs"] exI[of _ "map snd xs"]) simp
qed

theorem choose_k_means_partial_witness:
  "(1::int) \<le> 2 \<and> (2::int) < 4 \<and>
   step (\<lambda>df k. if k = 2 then Inl (LibraryError 0) else Inr \<lparr>cluster_centers = [], inertia = 2\<rparr>)
        (\<lambda>df cs. Inr [3]) [(''A'', [Num 1])] 2 = Inl (LibraryError 0) \<and>
   (\<exists>distortions inertias.
      choose_k_means
          (\<lambda>df k. if k = 2 then Inl (LibraryError 0) else Inr \<lparr>cluster_centers = [], inertia = 2\<rparr>)
          (\<lambda>df cs. Inr [3]) [(''A'', [Num 1])] 4
        = ([Exc (LibraryError 0)], Returned (PairV distortions inertias)) \<and>
      length distortions = nat (2 - 1) \<and> length inertias = nat (2 - 1) \<and>
      (\<forall>i<nat (2 - 1).
         step (\<lambda>df k. if k = 2 then Inl (LibraryError 0) else Inr \<lparr>cluster_centers = [], inertia = 2\<rparr>)
              (\<lambda>df cs. Inr [3]) [(''A'', [Num 1])] (int i + 1)
           = Inr (distortions ! i, inertias ! i)))"
proof -
  have a: "(1::int) \<le> 2" and b: "(2::int) < 4" by simp_all
  have c: "\<forall>k. 1 \<le> k \<and> k < 2 \<longrightarrow>
             (\<exists>r. step (\<lambda>df k. if k = 2 then Inl (LibraryError 0)
                               else Inr \<lparr>cluster_centers = [], inertia = 2\<rparr>)
                     (\<lambda>df cs. Inr [3]) [(''A'', [Num 1])] k = Inr r)"
    by (simp add: step_def shape_def nrows_def)
  have d: "step (\<lambda>df k. if k = 2 then Inl (LibraryError 0) else Inr \<lparr>cluster_centers = [], inertia = 2\<rparr>)
        (\<lambda>df cs. Inr [3]) [(''A'', [Num 1])] 2 = Inl (LibraryError 0)"
    by (simp add: step_def)
  show ?thesis
    by (intro conjI a b d choose_k_means_partial[OF a b c d])
qed

lemma choose_k_means_partial_run:
  "choose_k_means
     (\<lambda>df k. if k = 2 then Inl (LibraryError 0) else Inr \<lparr>cluster_centers = [], inertia = 2\<rparr>)
     (\<lambda>df cs. Inr [3]) [(''A'', [Num 1])] 4
   = ([Exc (LibraryError 0)], Returned (PairV [3] [2]))"
  by code_simp

subsection \<open>What \<open>fill_na\<close> leaves untouched\<close>

lemma fill_one_raises: "\<exists>e. fill_one stat self h df = Inl e"
  by (simp add: fill_one_def Series_fillna_def split: option.splits sum.splits)

lemma fill_loop_heap: "fst (fill_loop stat self h df cols) = h"
proof (cases cols)
  case Nil
  then show ?thesis by simp
next
  case (Cons col rest)
  from fill_one_raises obtain e where "fill_one stat self h df = Inl e" by blast
  with Cons show ?thesis by simp
qed

lemma fill_loop_raises:
  assumes "cols \<noteq> []"
  shows "\<exists>e. fill_loop stat self h df cols = (h, Some e)"
proof -
  from assms obtain col rest where c: "cols = col # rest" by (cases cols) auto
  from fill_one_raises obtain e where "fill_one stat self h df = Inl e" by blast
  with c show ?thesis by simp
qed

lemma fill_branch_heap: "fst (fill_branch stat self h df cols) = h"
proof -
  obtain h' err where l: "fill_loop stat self h df cols = (h', err)" by (cases "fill_loop stat self h df cols")
  with fill_loop_heap[of stat self h df cols] have "h' = h" by simp
  with l show ?thesis by (simp add: fill_branch_def split: option.splits)
qed

lemma fill_na_heap: "fst (fill_na lib self h type df cols) = h"
  by (simp add: fill_na_def fill_branch_heap)

lemma fill_na_never_fills:
  assumes "cols \<noteq> []" and "type = ''mean'' \<or> type = ''median'' \<or> type = ''mode''"
  shows "\<exists>e. fill_na lib self h type df cols = (h, [Exc e], None)"
proof -
  have "\<exists>e. fill_branch stat self h df cols = (h, [Exc e], None)" for stat
  proof -
    from fill_loop_raises[OF assms(1)] obtain e where
      "fill_loop stat self h df cols = (h, Some e)" by blast
    then show ?thesis by (simp add: fill_branch_def)
  qed
  with assms(2) show ?thesis by (auto simp: fill_na_def)
qed

text \<open>
  C1, at the internal frame and the passed frame both \<open>{A: [1, NaN, 3]}\<close> (one object), kind
  \<open>mean\<close> and columns \<open>[A]\<close>: the statement of the loop reads the attribute \<open>col\<close> of the frame
  instead of the column named by the loop variable, so it raises AttributeError; the method
  prints it and returns \<open>None\<close>, and the null cell of column \<open>A\<close> is still there.
\<close>

theorem fill_na_mean_fills_nothing:
  "(case fill_na lib \<lparr>self_df = Some 0\<rparr> (\<lambda>r. [(''A'', [Num 1, NaN, Num 3])]) ''mean'' 0 [''A'']
      of (h', printed, result) \<Rightarrow> (h' 0, printed, result))
   = ([(''A'', [Num 1, NaN, Num 3])], [Exc AttributeError], None)"
  by (simp add: fill_na_def fill_branch_def fill_one_def getattr_col_def)

text \<open>
  C10. For every kind, every store of frames and every column list, the frame passed as \<open>df\<close>
  is the same after \<open>fill_na\<close> as before, also when it is the very frame held in \<open>self.df\<close>.
\<close>

theorem fill_na_keeps_passed_frame:
  "fst (fill_na lib self h type df cols) df = h df"
  by (simp add: fill_na_heap)

lemma fill_na_col_frame:
  "(case fill_na exact_pandas \<lparr>self_df = Some 0\<rparr> (\<lambda>r. [(''col'', [Num 1, NaN, Num 3])])
          ''median'' 0 [''col'']
      of (h', printed, result) \<Rightarrow> (h' 0, printed, result))
   = ([(''col'', [Num 1, NaN, Num 3])], [Exc ValueError], None)"
  by code_simp

lemma fill_na_other_kind:
  assumes "type \<noteq> ''mean''" and "type \<noteq> ''median''" and "type \<noteq> ''mode''"
  shows "fill_na lib self h type df cols =
           (h, [Text ''type must be either mean, median or mode''], None)"
  using assms by (simp add: fill_na_def)

end
